theory Spec2Isabelle
  imports Main "HOL-Library.Word"
begin

section \<open>The worker object: \<open>vms::core::Thread\<close>\<close>

text \<open>
  The identity of an OS thread (\<open>std::thread::id\<close>) is a natural number. The
  data members of the classes are written without their final underscore, which a
  name cannot end in: \<open>thread\<close> is \<open>thread_\<close>, a \<open>std::thread\<close> handle.
  \<open>None\<close> is a handle that represents no thread, \<open>Some t\<close> one that represents
  thread \<open>t\<close>, running or finished but not yet joined. The classes derived from
  \<open>Thread\<close> are extensions of this record, so that \<open>start\<close> and \<open>stop\<close> act
  on every derived object and leave its own members alone.
\<close>

type_synonym tid = nat

record Thread =
  thread :: "tid option"
  stop_flag :: bool

datatype error = system_error

text \<open>\<open>std::thread::joinable\<close>: the handle represents a thread.\<close>

definition joinable :: "tid option \<Rightarrow> bool" where
  "joinable h = (h \<noteq> None)"

text \<open>\<open>Thread::Thread()\<close>: the stop flag is set, the handle is empty.\<close>

definition Thread_new :: "'a \<Rightarrow> 'a Thread_scheme" where
  "Thread_new ext = \<lparr>thread = None, stop_flag = True, \<dots> = ext\<rparr>"

text \<open>
  \<open>Thread::start\<close>. The first argument is the outcome of the expression
  \<open>std::thread(&Thread::loop, this)\<close>: \<open>Some t\<close> when the platform created thread
  \<open>t\<close>, which executes \<open>loop\<close>, and \<open>None\<close> when the constructor throws. The
  exception that \<open>start\<close> rethrows is the result \<open>Inl system_error\<close>.
\<close>

definition start :: "tid option \<Rightarrow> 'a Thread_scheme \<Rightarrow> (error + bool) \<times> 'a Thread_scheme" where
  "start spawned x =
     (if joinable (thread x) then (Inr False, x)
      else
        let x1 = x\<lparr>stop_flag := False\<rparr> in
        (case spawned of
           Some t \<Rightarrow> (Inr True, x1\<lparr>thread := Some t\<rparr>)
         | None \<Rightarrow> (Inl system_error, x1\<lparr>stop_flag := True\<rparr>)))"

text \<open>
  \<open>Thread::stop\<close>, called by thread \<open>caller\<close>. The second component of the result is
  the thread on which \<open>join_handle.join()\<close> was called, if any: the caller is blocked
  until that thread has left \<open>loop\<close>.
\<close>

definition stop :: "bool \<Rightarrow> tid \<Rightarrow> 'a Thread_scheme \<Rightarrow> 'a Thread_scheme \<times> tid option" where
  "stop wait_join caller x =
     (let x1 = x\<lparr>stop_flag := True\<rparr> in
      if \<not> joinable (thread x1) then (x1, None)
      else
        let should_join = (if thread x1 = Some caller then False else wait_join);
            join_handle = (if should_join then thread x1 else None);
            x2 = (if should_join then x1\<lparr>thread := None\<rparr> else x1)
        in (x2, if should_join \<and> joinable join_handle then join_handle else None))"

section \<open>The thread's view of the platform\<close>

text \<open>
  What a hook can do besides changing the object: read \<open>steady_clock::now()\<close> and
  sleep. A time point is the 64-bit signed count of nanoseconds since the clock's epoch
  that \<open>steady_clock::time_point\<close> holds on the platform of this code: a \<open>64 word\<close>,
  read by \<open>sint\<close> and compared as signed. The clock is an arbitrary sequence of
  readings; \<open>reads\<close> counts the readings taken so far, and nothing is assumed of how
  the readings relate to each other or to the sleeps. The sleeps are logged in order:
  \<open>SleepFor\<close> with a duration in microseconds, \<open>SleepUntil\<close> with a time point.
  \<open>this_thread\<close> is \<open>std::this_thread::get_id()\<close>. The durations that the two
  timed classes keep are counts of microseconds built from a 32-bit argument.
\<close>

datatype effect = SleepFor int | SleepUntil "64 word"

record env =
  this_thread :: tid
  clock :: "nat \<Rightarrow> 64 word"
  reads :: nat
  sleeps :: "effect list"

definition now :: "env \<Rightarrow> 64 word \<times> env" where
  "now e = (clock e (reads e), e\<lparr>reads := Suc (reads e)\<rparr>)"

definition sleep_for :: "int \<Rightarrow> env \<Rightarrow> env" where
  "sleep_for d e = e\<lparr>sleeps := sleeps e @ [SleepFor d]\<rparr>"

definition sleep_until :: "64 word \<Rightarrow> env \<Rightarrow> env" where
  "sleep_until tp e = e\<lparr>sleeps := sleeps e @ [SleepUntil tp]\<rparr>"

text \<open>
  A time point plus a duration in microseconds, as \<open>operator+\<close> and \<open>operator+=\<close>
  of \<open>std::chrono\<close> compute it: the count of microseconds is converted to
  nanoseconds and added to the count of the time point, in 64 bits.
\<close>

definition plus_us :: "64 word \<Rightarrow> int \<Rightarrow> 64 word" where
  "plus_us tp us = tp + 1000 * word_of_int us"

section \<open>The hooks and the loop\<close>

text \<open>
  The virtual functions of an object of class \<open>'o\<close>, as functions on the object and the
  environment. A hook is any such function: a \<open>run\<close> that calls \<open>stop\<close>, or during
  which another thread calls \<open>stop\<close>, is one that sets the stop flag.
\<close>

record 'o hooks =
  init :: "'o \<times> env \<Rightarrow> bool \<times> ('o \<times> env)"
  uninit :: "'o \<times> env \<Rightarrow> 'o \<times> env"
  run :: "'o \<times> env \<Rightarrow> 'o \<times> env"
  pre_run :: "'o \<times> env \<Rightarrow> 'o \<times> env"
  post_run :: "'o \<times> env \<Rightarrow> 'o \<times> env"

definition Thread_init :: "'o \<times> env \<Rightarrow> bool \<times> ('o \<times> env)" where
  "Thread_init s = (True, s)"

definition Thread_uninit :: "'o \<times> env \<Rightarrow> 'o \<times> env" where
  "Thread_uninit s = s"

definition Thread_pre_run :: "'o \<times> env \<Rightarrow> 'o \<times> env" where
  "Thread_pre_run s = s"

definition Thread_post_run :: "'o \<times> env \<Rightarrow> 'o \<times> env" where
  "Thread_post_run s = s"

text \<open>
  A call of \<open>stop\<close> from inside a hook, by the thread that executes the hook. The thread
  that \<open>stop\<close> joins, if any, is the second component.
\<close>

definition call_stop :: "bool \<Rightarrow> 'a Thread_scheme \<times> env \<Rightarrow> ('a Thread_scheme \<times> env) \<times> tid option" where
  "call_stop wait_join s =
     (case s of (x, e) \<Rightarrow>
        (case stop wait_join (this_thread e) x of (x', j) \<Rightarrow> ((x', e), j)))"

text \<open>
  The hooks that \<open>loop\<close> calls are recorded in order. The \<open>while\<close> of \<open>Thread::loop\<close>
  has no bound of its own: the first argument bounds the number of iterations, and
  \<open>None\<close> says that the loop was still running after that many.
\<close>

datatype hook = Init | PreRun | Run | PostRun | Uninit

fun while_loop :: "nat \<Rightarrow> ('a Thread_scheme) hooks \<Rightarrow> 'a Thread_scheme \<times> env
    \<Rightarrow> (hook list \<times> ('a Thread_scheme \<times> env)) option" where
  "while_loop 0 h s = (if stop_flag (fst s) then Some ([], s) else None)"
| "while_loop (Suc n) h s =
     (if stop_flag (fst s) then Some ([], s)
      else
        (case while_loop n h (post_run h (run h (pre_run h s))) of
           None \<Rightarrow> None
         | Some (tr, s') \<Rightarrow> Some ([PreRun, Run, PostRun] @ tr, s')))"

definition loop :: "nat \<Rightarrow> ('a Thread_scheme) hooks \<Rightarrow> 'a Thread_scheme \<times> env
    \<Rightarrow> (hook list \<times> ('a Thread_scheme \<times> env)) option" where
  "loop n h s =
     (case init h s of
        (ok, s1) \<Rightarrow>
          if \<not> ok then Some ([Init], (fst s1\<lparr>stop_flag := True\<rparr>, snd s1))
          else
            (case while_loop n h s1 of
               None \<Rightarrow> None
             | Some (tr, s2) \<Rightarrow> Some (Init # tr @ [Uninit], uninit h s2)))"

section \<open>\<open>TimedThread\<close> and \<open>HiResTimedThread\<close>\<close>

definition make_non_negative_duration :: "32 word \<Rightarrow> int" where
  "make_non_negative_duration microseconds =
     (if sint microseconds < 0 then 0 else sint microseconds)"

record TimedThread = Thread +
  sleep_duration :: int

definition TimedThread_new :: "32 word \<Rightarrow> 'a \<Rightarrow> 'a TimedThread_scheme" where
  "TimedThread_new micro_sec ext =
     \<lparr>thread = None, stop_flag = True,
      sleep_duration = make_non_negative_duration micro_sec, \<dots> = ext\<rparr>"

definition TimedThread_pre_run :: "'a TimedThread_scheme \<times> env \<Rightarrow> 'a TimedThread_scheme \<times> env" where
  "TimedThread_pre_run s =
     (case s of (x, e) \<Rightarrow>
        if sleep_duration x > 0 then (x, sleep_for (sleep_duration x) e) else (x, e))"

text \<open>
  The virtual table of a class derived from \<open>TimedThread\<close> that supplies \<open>run\<close> (and
  \<open>init\<close>, which \<open>TimedThread\<close> inherits from \<open>Thread\<close>).
\<close>

definition TimedThread_hooks :: "('a TimedThread_scheme \<times> env \<Rightarrow> 'a TimedThread_scheme \<times> env)
    \<Rightarrow> ('a TimedThread_scheme) hooks" where
  "TimedThread_hooks body =
     \<lparr>init = Thread_init, uninit = Thread_uninit, run = body,
      pre_run = TimedThread_pre_run, post_run = Thread_post_run\<rparr>"

record HiResTimedThread = Thread +
  loop_interval :: int
  next_deadline :: "64 word"
  first_iteration :: bool

text \<open>\<open>Clock::time_point{}\<close>, the clock's epoch, is the value of a deadline that is not set.\<close>

definition HiResTimedThread_new :: "32 word \<Rightarrow> 'a \<Rightarrow> 'a HiResTimedThread_scheme" where
  "HiResTimedThread_new micro_sec ext =
     \<lparr>thread = None, stop_flag = True,
      loop_interval = make_non_negative_duration micro_sec,
      next_deadline = 0, first_iteration = True, \<dots> = ext\<rparr>"

definition HiResTimedThread_pre_run ::
    "'a HiResTimedThread_scheme \<times> env \<Rightarrow> 'a HiResTimedThread_scheme \<times> env" where
  "HiResTimedThread_pre_run s =
     (case s of (x, e) \<Rightarrow>
        if loop_interval x = 0 then (x, e)
        else if first_iteration x then
          (case now e of (t, e1) \<Rightarrow>
             (x\<lparr>next_deadline := plus_us t (loop_interval x), first_iteration := False\<rparr>, e1))
        else (x, e))"

definition HiResTimedThread_post_run ::
    "'a HiResTimedThread_scheme \<times> env \<Rightarrow> 'a HiResTimedThread_scheme \<times> env" where
  "HiResTimedThread_post_run s =
     (case s of (x, e) \<Rightarrow>
        if loop_interval x = 0 then (x, e)
        else
          (case now e of (t, e1) \<Rightarrow>
             if sint t < sint (next_deadline x) then
               (x\<lparr>next_deadline := plus_us (next_deadline x) (loop_interval x)\<rparr>,
                sleep_until (next_deadline x) e1)
             else (x\<lparr>next_deadline := plus_us t (loop_interval x)\<rparr>, e1)))"

definition HiResTimedThread_uninit ::
    "'a HiResTimedThread_scheme \<times> env \<Rightarrow> 'a HiResTimedThread_scheme \<times> env" where
  "HiResTimedThread_uninit s =
     (case s of (x, e) \<Rightarrow>
        Thread_uninit (x\<lparr>first_iteration := True, next_deadline := 0\<rparr>, e))"

text \<open>
  The virtual table of a class derived from \<open>HiResTimedThread\<close> that supplies \<open>run\<close>
  and may override \<open>init\<close>.
\<close>

definition HiResTimedThread_hooks ::
    "('a HiResTimedThread_scheme \<times> env \<Rightarrow> bool \<times> ('a HiResTimedThread_scheme \<times> env))
    \<Rightarrow> ('a HiResTimedThread_scheme \<times> env \<Rightarrow> 'a HiResTimedThread_scheme \<times> env)
    \<Rightarrow> ('a HiResTimedThread_scheme) hooks" where
  "HiResTimedThread_hooks ini body =
     \<lparr>init = ini, uninit = HiResTimedThread_uninit, run = body,
      pre_run = HiResTimedThread_pre_run, post_run = HiResTimedThread_post_run\<rparr>"

section \<open>Histories of a worker object\<close>

text \<open>
  The bodies of \<open>start\<close> and \<open>stop\<close> run under \<open>state_mutex_\<close>, one at a time, and
  the only other write to the members of \<open>Thread\<close> is the store to the stop flag that
  \<open>loop\<close> makes when \<open>init\<close> fails. A history is a sequence of such steps, applied
  to a freshly constructed object.
\<close>

datatype call = Start "tid option" | Stop bool tid | InitFailed

fun apply_call :: "'a Thread_scheme \<Rightarrow> call \<Rightarrow> 'a Thread_scheme" where
  "apply_call x (Start spawned) = snd (start spawned x)"
| "apply_call x (Stop wait_join caller) = fst (stop wait_join caller x)"
| "apply_call x InitFailed = x\<lparr>stop_flag := True\<rparr>"

definition after_calls :: "call list \<Rightarrow> 'a \<Rightarrow> 'a Thread_scheme" where
  "after_calls cs ext = foldl apply_call (Thread_new ext) cs"

section \<open>The threads of a worker, step by step\<close>

text \<open>
  \<open>Thread::loop\<close> once more, one step at a time, so that the calls that other threads
  make can fall between the steps of a worker thread. A step is one call of a hook or
  one test of the stop flag; the position says what the thread does next.
\<close>

datatype pc = AtInit | AtCheck | AtPreRun | AtRun | AtPostRun | AtUninit | Exited

fun thread_step :: "('a Thread_scheme) hooks \<Rightarrow> pc \<times> ('a Thread_scheme \<times> env)
    \<Rightarrow> pc \<times> ('a Thread_scheme \<times> env)" where
  "thread_step h (AtInit, s) =
     (case init h s of
        (ok, s1) \<Rightarrow>
          if \<not> ok then (Exited, (fst s1\<lparr>stop_flag := True\<rparr>, snd s1)) else (AtCheck, s1))"
| "thread_step h (AtCheck, s) = (if stop_flag (fst s) then (AtUninit, s) else (AtPreRun, s))"
| "thread_step h (AtPreRun, s) = (AtRun, pre_run h s)"
| "thread_step h (AtRun, s) = (AtPostRun, run h s)"
| "thread_step h (AtPostRun, s) = (AtCheck, post_run h s)"
| "thread_step h (AtUninit, s) = (Exited, uninit h s)"
| "thread_step h (Exited, s) = (Exited, s)"

text \<open>
  A worker object together with the threads that \<open>start\<close> has created for it.
  \<open>workers\<close> says where each of them is in \<open>loop\<close>; \<open>joining\<close> holds the pairs
  \<open>(c, t)\<close> such that thread \<open>c\<close> has called \<open>join\<close> on thread \<open>t\<close> in \<open>stop\<close>;
  \<open>entries\<close> lists the object as it was each time a thread entered \<open>loop\<close>.
\<close>

record 'o system =
  object :: 'o
  platform :: env
  workers :: "(tid \<times> pc) list"
  joining :: "(tid \<times> tid) list"
  entries :: "'o list"

definition boot :: "'o \<Rightarrow> env \<Rightarrow> 'o system" where
  "boot x e = \<lparr>object = x, platform = e, workers = [], joining = [], entries = []\<rparr>"

definition live :: "(tid \<times> pc) list \<Rightarrow> tid \<Rightarrow> bool" where
  "live ws t = (case map_of ws t of None \<Rightarrow> False | Some p \<Rightarrow> p \<noteq> Exited)"

text \<open>A thread inside \<open>join\<close> does nothing until the thread it joins has left \<open>loop\<close>.\<close>

definition blocked :: "'o system \<Rightarrow> tid \<Rightarrow> bool" where
  "blocked w c = list_ex (\<lambda>(c', t). c' = c \<and> live (workers w) t) (joining w)"


text \<open>
  What can happen next: thread \<open>c\<close> calls \<open>start\<close> (with the outcome of the thread
  creation), thread \<open>c\<close> calls \<open>stop\<close>, or worker thread \<open>t\<close> makes its next step. The
  bodies of \<open>start\<close> and \<open>stop\<close> run under \<open>state_mutex_\<close> and are one step each;
  \<open>stop\<close> releases the mutex before it joins, so that other threads go on, and may
  call \<open>start\<close>, while the caller of \<open>stop\<close> waits. \<open>None\<close>: the action cannot
  happen in this state (the caller is inside \<open>join\<close>, the new thread's identity is that
  of a thread still running, or the thread that is to step has left \<open>loop\<close> or was
  never created).
\<close>

datatype action = CallStart tid "tid option" | CallStop tid bool | Step tid

fun exec :: "('a Thread_scheme) hooks \<Rightarrow> ('a Thread_scheme) system \<Rightarrow> action
    \<Rightarrow> ('a Thread_scheme) system option" where
  "exec h w (CallStart c spawned) =
     (if blocked w c \<or> (case spawned of None \<Rightarrow> False | Some t \<Rightarrow> live (workers w) t)
      then None
      else
        (case start spawned (object w) of
           (r, x) \<Rightarrow>
             (case (r, spawned) of
                (Inr True, Some t) \<Rightarrow>
                  Some (w\<lparr>object := x,
                          workers := (t, AtInit) # filter (\<lambda>(u, p). u \<noteq> t) (workers w)\<rparr>)
              | _ \<Rightarrow> Some (w\<lparr>object := x\<rparr>))))"
| "exec h w (CallStop c wait_join) =
     (if blocked w c then None
      else
        (case stop wait_join c (object w) of
           (x, None) \<Rightarrow> Some (w\<lparr>object := x\<rparr>)
         | (x, Some t) \<Rightarrow> Some (w\<lparr>object := x, joining := (c, t) # joining w\<rparr>)))"
| "exec h w (Step t) =
     (case map_of (workers w) t of
        None \<Rightarrow> None
      | Some p \<Rightarrow>
          if p = Exited then None
          else
            (case thread_step h (p, (object w, (platform w)\<lparr>this_thread := t\<rparr>)) of
               (p', (x, e)) \<Rightarrow>
                 Some (w\<lparr>object := x, platform := e,
                         workers := map (\<lambda>(u, q). if u = t then (u, p') else (u, q)) (workers w),
                         entries := (if p = AtInit then entries w @ [object w] else entries w)\<rparr>)))"

fun execs :: "('a Thread_scheme) hooks \<Rightarrow> ('a Thread_scheme) system \<Rightarrow> action list
    \<Rightarrow> ('a Thread_scheme) system option" where
  "execs h w [] = Some w"
| "execs h w (a # as) = (case exec h w a of None \<Rightarrow> None | Some w' \<Rightarrow> execs h w' as)"


section \<open>The workers of the test suite\<close>

text \<open>
  \<open>LifecycleThread\<close>, \<open>FailingInitThread\<close> and \<open>RecordingHiResThread\<close> of
  \<open>tests/thread_tests.cpp\<close>. Sleeps are in microseconds; the member \<open>done_\<close> is
  \<open>done_flag\<close>, and the \<open>target_iterations_\<close> of \<open>RecordingHiResThread\<close> is
  \<open>target_iterations_hr\<close>.
\<close>

record LifecycleThread = Thread +
  target_iterations :: int
  init_calls :: int
  uninit_calls :: int
  pre_calls :: int
  post_calls :: int
  run_calls :: int

definition LifecycleThread_new :: "int \<Rightarrow> LifecycleThread" where
  "LifecycleThread_new target =
     \<lparr>thread = None, stop_flag = True, target_iterations = target, init_calls = 0,
      uninit_calls = 0, pre_calls = 0, post_calls = 0, run_calls = 0\<rparr>"

definition LifecycleThread_run :: "LifecycleThread \<times> env \<Rightarrow> LifecycleThread \<times> env" where
  "LifecycleThread_run s =
     (case s of (x, e) \<Rightarrow>
        let x1 = x\<lparr>run_calls := run_calls x + 1\<rparr>;
            e1 = sleep_for 1000 e
        in if run_calls x1 \<ge> target_iterations x1 then fst (call_stop False (x1, e1))
           else (x1, e1))"

definition LifecycleThread_hooks :: "LifecycleThread hooks" where
  "LifecycleThread_hooks =
     \<lparr>init = (\<lambda>(x, e). (True, (x\<lparr>init_calls := init_calls x + 1\<rparr>, e))),
      uninit = (\<lambda>(x, e). (x\<lparr>uninit_calls := uninit_calls x + 1\<rparr>, e)),
      run = LifecycleThread_run,
      pre_run = (\<lambda>(x, e). (x\<lparr>pre_calls := pre_calls x + 1\<rparr>, e)),
      post_run = (\<lambda>(x, e). (x\<lparr>post_calls := post_calls x + 1\<rparr>, e))\<rparr>"

record FailingInitThread = Thread +
  init_called :: bool
  run_called :: bool

definition FailingInitThread_new :: FailingInitThread where
  "FailingInitThread_new =
     \<lparr>thread = None, stop_flag = True, init_called = False, run_called = False\<rparr>"

definition FailingInitThread_hooks :: "FailingInitThread hooks" where
  "FailingInitThread_hooks =
     \<lparr>init = (\<lambda>(x, e). (False, (x\<lparr>init_called := True\<rparr>, e))),
      uninit = Thread_uninit,
      run = (\<lambda>(x, e). (x\<lparr>run_called := True\<rparr>, e)),
      pre_run = Thread_pre_run,
      post_run = Thread_post_run\<rparr>"

record RecordingHiResThread = HiResTimedThread +
  target_iterations_hr :: nat
  timestamps :: "64 word list"
  done_flag :: bool

definition RecordingHiResThread_new :: "32 word \<Rightarrow> nat \<Rightarrow> RecordingHiResThread" where
  "RecordingHiResThread_new microseconds target =
     HiResTimedThread_new microseconds
       \<lparr>target_iterations_hr = target, timestamps = [], done_flag = False\<rparr>"

definition RecordingHiResThread_run :: "RecordingHiResThread \<times> env \<Rightarrow> RecordingHiResThread \<times> env" where
  "RecordingHiResThread_run s =
     (case s of (x, e) \<Rightarrow>
        (case now e of (t, e1) \<Rightarrow>
           let x1 = x\<lparr>timestamps := timestamps x @ [t]\<rparr>;
               e2 = sleep_for 500 e1
           in if length (timestamps x1) \<ge> target_iterations_hr x1
              then fst (call_stop False (x1\<lparr>done_flag := True\<rparr>, e2))
              else (x1, e2)))"

definition RecordingHiResThread_hooks :: "RecordingHiResThread hooks" where
  "RecordingHiResThread_hooks = HiResTimedThread_hooks Thread_init RecordingHiResThread_run"

text \<open>A clock that is a millisecond further at each reading.\<close>

definition ms_clock :: "nat \<Rightarrow> 64 word" where
  "ms_clock k = 1000000 * of_nat k"

section \<open>A worker whose \<open>init\<close> calls a hook\<close>


section \<open>An invariant of orderly schedules\<close>


section \<open>Starting and stopping\<close>

text \<open>
  C1, as the specification states it: \<open>stop(false)\<close> from a thread other than the
  worker's own detaches the handle, so that no joinable handle remains. The code has no
  \<open>detach\<close>: after \<open>start\<close> created thread 2, \<open>stop(false)\<close> called by thread 1
  leaves the handle joinable.
\<close>

theorem stop_nowait_keeps_handle:
  "joinable (thread (fst (stop False 1 (snd (start (Some 2) (Thread_new ()))))))"
  by (simp add: stop_def start_def Thread_new_def joinable_def)

text \<open>
  C1, amended: when a thread is associated and \<open>stop(false)\<close> is called from another
  thread, \<open>stop\<close> sets the stop flag and returns without joining; the handle is left as
  it was, still joinable, and a \<open>start\<close> that follows is refused.
\<close>

theorem stop_nowait_other_thread:
  "thread x = Some t \<Longrightarrow> t \<noteq> caller \<Longrightarrow>
     stop False caller x = (x\<lparr>stop_flag := True\<rparr>, None)
     \<and> joinable (thread (fst (stop False caller x)))
     \<and> start spawned (fst (stop False caller x)) = (Inr False, x\<lparr>stop_flag := True\<rparr>)"
  by (simp add: stop_def start_def joinable_def)

theorem stop_nowait_other_thread_witness:
  "stop False 1 (snd (start (Some 2) (Thread_new ()))) =
     (\<lparr>thread = Some 2, stop_flag = True\<rparr>, None)
   \<and> start (Some 3) \<lparr>thread = Some 2, stop_flag = True\<rparr>
       = (Inr False, \<lparr>thread = Some 2, stop_flag = True\<rparr>)"
  using stop_nowait_other_thread [of "snd (start (Some 2) (Thread_new ()))" 2 1 "Some 3"]
  by (simp add: start_def Thread_new_def joinable_def)

text \<open>
  C4: \<open>start\<close> on a joinable handle returns false and changes nothing, whatever the
  platform would have done; on an empty handle, when the platform creates thread \<open>t\<close>,
  it clears the stop flag, keeps the handle of \<open>t\<close> and returns true; and after a
  \<open>stop(true)\<close> from another thread, which empties the handle and joins, \<open>start\<close>
  succeeds again.
\<close>

theorem start_contract:
  "(joinable (thread x) \<longrightarrow> start spawned x = (Inr False, x))
   \<and> (\<not> joinable (thread x) \<longrightarrow>
        start (Some t) x = (Inr True, x\<lparr>stop_flag := False, thread := Some t\<rparr>))
   \<and> (thread x = Some u \<and> u \<noteq> caller \<longrightarrow>
        stop True caller x = (x\<lparr>stop_flag := True, thread := None\<rparr>, Some u)
        \<and> start (Some t) (fst (stop True caller x))
            = (Inr True, x\<lparr>stop_flag := False, thread := Some t\<rparr>))"
  by (simp add: stop_def start_def joinable_def)

theorem start_contract_witness:
  "start (Some 5) \<lparr>thread = Some 2, stop_flag = False\<rparr>
      = (Inr False, \<lparr>thread = Some 2, stop_flag = False\<rparr>)
   \<and> start (Some 2) (Thread_new ()) = (Inr True, \<lparr>thread = Some 2, stop_flag = False\<rparr>)
   \<and> stop True 1 \<lparr>thread = Some 2, stop_flag = False\<rparr>
      = (\<lparr>thread = None, stop_flag = True\<rparr>, Some 2)
   \<and> start (Some 3) (fst (stop True 1 \<lparr>thread = Some 2, stop_flag = False\<rparr>))
      = (Inr True, \<lparr>thread = Some 3, stop_flag = False\<rparr>)"
  using start_contract [of "\<lparr>thread = Some 2, stop_flag = False\<rparr>" "Some 5" 3 2 1]
    start_contract [of "Thread_new ()" None 2 0 0]
  by (simp add: joinable_def Thread_new_def start_def stop_def)

text \<open>An object whose handle is empty has its stop flag set, after every history.\<close>

lemma after_calls_snoc: "after_calls (cs @ [c]) ext = apply_call (after_calls cs ext) c"
  by (simp add: after_calls_def)

lemma idle_is_stopped: "thread (after_calls cs ext) = None \<Longrightarrow> stop_flag (after_calls cs ext)"
proof (induction cs rule: rev_induct)
  case Nil
  then show ?case by (simp add: after_calls_def Thread_new_def)
next
  case (snoc c cs)
  then show ?case
    by (cases c) (auto simp: after_calls_snoc start_def stop_def joinable_def Let_def
        split: if_splits option.splits)
qed

text \<open>
  C6: when \<open>start\<close> gets as far as creating the thread and the platform fails, the
  error comes out of \<open>start\<close> and the stop flag is set again; for an object with any
  history of calls, that is exactly the state it had before the call.
\<close>

theorem thread_creation_failure:
  "\<not> joinable (thread x) \<Longrightarrow>
     start None x = (Inl system_error, x\<lparr>stop_flag := True\<rparr>)
     \<and> (x = after_calls cs ext \<longrightarrow> start None x = (Inl system_error, x))"
  using idle_is_stopped [of cs ext]
  by (auto simp: start_def joinable_def)

theorem thread_creation_failure_witness:
  "start None (after_calls [Start (Some 2), Stop True 1] ())
     = (Inl system_error, \<lparr>thread = None, stop_flag = True\<rparr>)"
  using thread_creation_failure [of "after_calls [Start (Some 2), Stop True 1] ()"
      "[Start (Some 2), Stop True 1]" "()"]
  by (simp add: after_calls_def Thread_new_def start_def stop_def joinable_def)

section \<open>The loop\<close>

text \<open>
  A \<open>while\<close> that ends after \<open>k\<close> iterations leaves the state that \<open>k\<close> times
  \<open>pre_run\<close>, \<open>run\<close>, \<open>post_run\<close> make of the state it started in; the stop flag was
  clear before each iteration and is set at the end.
\<close>

lemma while_loop_state:
  "while_loop n h s = Some (tr, s') \<Longrightarrow>
     \<exists>k. tr = concat (replicate k [PreRun, Run, PostRun])
       \<and> s' = ((\<lambda>u. post_run h (run h (pre_run h u))) ^^ k) s
       \<and> (\<forall>j<k. \<not> stop_flag (fst (((\<lambda>u. post_run h (run h (pre_run h u))) ^^ j) s)))
       \<and> stop_flag (fst s')"
proof (induction n arbitrary: s tr)
  case 0
  then have "tr = [] \<and> s' = s \<and> stop_flag (fst s)" by (auto split: if_splits)
  then show ?case by (intro exI [of _ 0]) simp
next
  case (Suc n)
  let ?it = "\<lambda>u. post_run h (run h (pre_run h u))"
  show ?case
  proof (cases "stop_flag (fst s)")
    case True
    with Suc.prems have "tr = [] \<and> s' = s \<and> stop_flag (fst s)" by auto
    then show ?thesis by (intro exI [of _ 0]) simp
  next
    case False
    with Suc.prems obtain tr0 where
      r: "while_loop n h (?it s) = Some (tr0, s')"
      and t: "tr = [PreRun, Run, PostRun] @ tr0"
      by (auto split: option.splits)
    from Suc.IH [OF r] obtain k where
      k1: "tr0 = concat (replicate k [PreRun, Run, PostRun])"
      and k2: "s' = (?it ^^ k) (?it s)"
      and k3: "\<forall>j<k. \<not> stop_flag (fst ((?it ^^ j) (?it s)))"
      and k4: "stop_flag (fst s')" by blast
    have a: "tr = concat (replicate (Suc k) [PreRun, Run, PostRun])" using t k1 by simp
    have sh: "(?it ^^ Suc i) s = (?it ^^ i) (?it s)" for i
      by (simp only: funpow_Suc_right comp_apply)
    have b: "s' = (?it ^^ Suc k) s" using k2 by (simp only: sh)
    have c: "\<not> stop_flag (fst ((?it ^^ j) s))" if "j < Suc k" for j
    proof (cases j)
      case 0
      with False show ?thesis by simp
    next
      case (Suc i)
      with that k3 show ?thesis by (simp only: sh) simp
    qed
    from a b c k4 show ?thesis by blast
  qed
qed

lemma count_iterations:
  "count_list (concat (replicate k [PreRun, Run, PostRun])) a =
     (if a \<in> {PreRun, Run, PostRun} then k else 0)"
  by (induction k) auto

text \<open>
  C2: when \<open>start\<close> has created the thread and \<open>init\<close> returns false, \<open>start\<close> has
  returned true all the same, and \<open>loop\<close> returns, whatever the bound, having called
  \<open>init\<close> and no other hook (no \<open>pre_run\<close>, \<open>run\<close>, \<open>post_run\<close> or \<open>uninit\<close>);
  it leaves the state that \<open>init\<close> left, with the stop flag set.
\<close>

theorem init_failure_aborts:
  "\<not> joinable (thread x) \<Longrightarrow> \<not> fst (init h (snd (start (Some t) x), e)) \<Longrightarrow>
     fst (start (Some t) x) = Inr True
     \<and> (\<exists>s'. loop n h (snd (start (Some t) x), e) = Some ([Init], s')
           \<and> stop_flag (fst s')
           \<and> s' = (fst (snd (init h (snd (start (Some t) x), e)))\<lparr>stop_flag := True\<rparr>,
                   snd (snd (init h (snd (start (Some t) x), e)))))"
proof -
  assume j: "\<not> joinable (thread x)"
  assume f: "\<not> fst (init h (snd (start (Some t) x), e))"
  obtain ok s1 where i: "init h (snd (start (Some t) x), e) = (ok, s1)"
    by (cases "init h (snd (start (Some t) x), e)")
  with f have "\<not> ok" by simp
  with i have "loop n h (snd (start (Some t) x), e) = Some ([Init], (fst s1\<lparr>stop_flag := True\<rparr>, snd s1))"
    by (simp add: loop_def)
  moreover from j have "fst (start (Some t) x) = Inr True"
    by (simp add: start_def)
  ultimately show ?thesis using i by simp
qed

theorem init_failure_aborts_witness:
  "fst (start (Some 2) FailingInitThread_new) = Inr True
   \<and> (\<forall>n. loop n FailingInitThread_hooks
          (snd (start (Some 2) FailingInitThread_new),
           \<lparr>this_thread = 2, clock = (\<lambda>k. 0), reads = 0, sleeps = []\<rparr>)
        = Some ([Init],
            (\<lparr>thread = Some 2, stop_flag = True, init_called = True, run_called = False\<rparr>,
             \<lparr>this_thread = 2, clock = (\<lambda>k. 0), reads = 0, sleeps = []\<rparr>)))"
proof -
  let ?e = "\<lparr>this_thread = 2, clock = (\<lambda>k. 0), reads = 0, sleeps = []\<rparr>"
  have a: "\<not> joinable (thread FailingInitThread_new)"
    by (simp add: FailingInitThread_new_def joinable_def)
  have b: "\<not> fst (init FailingInitThread_hooks (snd (start (Some 2) FailingInitThread_new), ?e))"
    by (simp add: FailingInitThread_hooks_def)
  show ?thesis
    using init_failure_aborts [OF a b]
    by (simp add: FailingInitThread_hooks_def FailingInitThread_new_def start_def joinable_def)
qed

text \<open>
  C5: when \<open>init\<close> succeeds and \<open>loop\<close> returns, it has called \<open>init\<close>, then for
  some number \<open>k\<close> of iterations \<open>pre_run\<close>, \<open>run\<close>, \<open>post_run\<close> in this order, then
  \<open>uninit\<close>, and nothing else: the state it returns is the one that these calls, in
  this order, make of the state it started in. \<open>pre_run\<close> and \<open>post_run\<close> are called
  \<open>k\<close> times each, \<open>init\<close> and \<open>uninit\<close> once each.
\<close>

theorem loop_hook_order:
  assumes "fst (init h s)" and "loop n h s = Some (tr, s')"
  shows "\<exists>k. tr = [Init] @ concat (replicate k [PreRun, Run, PostRun]) @ [Uninit]
           \<and> s' = uninit h (((\<lambda>u. post_run h (run h (pre_run h u))) ^^ k) (snd (init h s)))
           \<and> (\<forall>j<k. \<not> stop_flag
                 (fst (((\<lambda>u. post_run h (run h (pre_run h u))) ^^ j) (snd (init h s)))))
           \<and> stop_flag (fst (((\<lambda>u. post_run h (run h (pre_run h u))) ^^ k) (snd (init h s))))
           \<and> count_list tr PreRun = k \<and> count_list tr Run = k \<and> count_list tr PostRun = k
           \<and> count_list tr Init = 1 \<and> count_list tr Uninit = 1"
proof -
  let ?it = "\<lambda>u. post_run h (run h (pre_run h u))"
  from assms obtain tr0 s2 where
    w: "while_loop n h (snd (init h s)) = Some (tr0, s2)" and t: "tr = Init # tr0 @ [Uninit]"
    and u: "s' = uninit h s2"
    by (auto simp: loop_def split: prod.splits option.splits)
  from while_loop_state [OF w] obtain k where
    k: "tr0 = concat (replicate k [PreRun, Run, PostRun])"
    and st: "s2 = (?it ^^ k) (snd (init h s))"
    and no: "\<forall>j<k. \<not> stop_flag (fst ((?it ^^ j) (snd (init h s))))"
    and fl: "stop_flag (fst s2)" by blast
  have "tr = [Init] @ concat (replicate k [PreRun, Run, PostRun]) @ [Uninit]"
    using t k by simp
  moreover have "count_list tr PreRun = k" "count_list tr Run = k" "count_list tr PostRun = k"
    "count_list tr Init = 1" "count_list tr Uninit = 1"
    using t k by (simp_all add: count_iterations)
  ultimately show ?thesis using u st no fl by blast
qed

text \<open>The \<open>LifecycleThread\<close> of the tests, with a target of two iterations.\<close>

lemma lifecycle_run:
  "loop 2 LifecycleThread_hooks (snd (start (Some 2) (LifecycleThread_new 2)),
        \<lparr>this_thread = 2, clock = (\<lambda>k. 0), reads = 0, sleeps = []\<rparr>)
   = Some ([Init, PreRun, Run, PostRun, PreRun, Run, PostRun, Uninit],
       (\<lparr>thread = Some 2, stop_flag = True, target_iterations = 2, init_calls = 1,
         uninit_calls = 1, pre_calls = 2, post_calls = 2, run_calls = 2\<rparr>,
        \<lparr>this_thread = 2, clock = (\<lambda>k. 0), reads = 0, sleeps = [SleepFor 1000, SleepFor 1000]\<rparr>))"
  by (simp add: loop_def numeral_2_eq_2 LifecycleThread_hooks_def LifecycleThread_run_def
      LifecycleThread_new_def start_def joinable_def call_stop_def stop_def sleep_for_def Let_def)

theorem loop_hook_order_witness:
  "fst (init LifecycleThread_hooks (snd (start (Some 2) (LifecycleThread_new 2)),
        \<lparr>this_thread = 2, clock = (\<lambda>k. 0), reads = 0, sleeps = []\<rparr>))
   \<and> loop 2 LifecycleThread_hooks (snd (start (Some 2) (LifecycleThread_new 2)),
        \<lparr>this_thread = 2, clock = (\<lambda>k. 0), reads = 0, sleeps = []\<rparr>)
      = Some ([Init, PreRun, Run, PostRun, PreRun, Run, PostRun, Uninit],
          (\<lparr>thread = Some 2, stop_flag = True, target_iterations = 2, init_calls = 1,
            uninit_calls = 1, pre_calls = 2, post_calls = 2, run_calls = 2\<rparr>,
           \<lparr>this_thread = 2, clock = (\<lambda>k. 0), reads = 0,
            sleeps = [SleepFor 1000, SleepFor 1000]\<rparr>))
   \<and> (\<lparr>thread = Some 2, stop_flag = True, target_iterations = 2, init_calls = 1,
         uninit_calls = 1, pre_calls = 2, post_calls = 2, run_calls = 2\<rparr>,
        \<lparr>this_thread = 2, clock = (\<lambda>k. 0), reads = 0, sleeps = [SleepFor 1000, SleepFor 1000]\<rparr>)
      = uninit LifecycleThread_hooks
          (((\<lambda>u. post_run LifecycleThread_hooks
                   (run LifecycleThread_hooks (pre_run LifecycleThread_hooks u))) ^^ 2)
             (snd (init LifecycleThread_hooks (snd (start (Some 2) (LifecycleThread_new 2)),
                \<lparr>this_thread = 2, clock = (\<lambda>k. 0), reads = 0, sleeps = []\<rparr>))))"
proof -
  let ?s = "(snd (start (Some 2) (LifecycleThread_new 2)),
        \<lparr>this_thread = 2, clock = (\<lambda>k. 0), reads = 0, sleeps = []\<rparr>)"
  let ?tr = "[Init, PreRun, Run, PostRun, PreRun, Run, PostRun, Uninit]"
  let ?it = "\<lambda>u. post_run LifecycleThread_hooks
                   (run LifecycleThread_hooks (pre_run LifecycleThread_hooks u))"
  have a: "fst (init LifecycleThread_hooks ?s)"
    by (simp add: LifecycleThread_hooks_def)
  from loop_hook_order [OF a lifecycle_run] obtain k where
    st: "(\<lparr>thread = Some 2, stop_flag = True, target_iterations = 2, init_calls = 1,
         uninit_calls = 1, pre_calls = 2, post_calls = 2, run_calls = 2\<rparr>,
        \<lparr>this_thread = 2, clock = (\<lambda>k. 0), reads = 0, sleeps = [SleepFor 1000, SleepFor 1000]\<rparr>)
      = uninit LifecycleThread_hooks ((?it ^^ k) (snd (init LifecycleThread_hooks ?s)))"
    and c: "count_list ?tr PreRun = k"
    by blast
  from c have "k = 2" by simp
  with st a lifecycle_run show ?thesis by blast
qed

text \<open>\<open>stop\<close> called by the thread that the handle represents.\<close>

lemma stop_self: "thread y = Some c \<Longrightarrow> stop wait_join c y = (y\<lparr>stop_flag := True\<rparr>, None)"
  by (simp add: stop_def joinable_def)

text \<open>
  C8: \<open>stop\<close> called by the thread that the handle represents sets the stop flag and
  joins nothing, whatever \<open>wait_join\<close> is, and leaves the handle as it is. In the loop:
  when \<open>run\<close> ends an iteration with such a call (made in state \<open>s1\<close>), and \<open>post_run\<close>
  does not clear the stop flag, the call joins nothing and this iteration is the last.
\<close>

theorem stop_from_own_thread:
  "(thread x = Some caller \<longrightarrow> stop wait_join caller x = (x\<lparr>stop_flag := True\<rparr>, None))
   \<and> (\<not> stop_flag (fst s)
      \<and> run h (pre_run h s) = fst (call_stop wait_join s1)
      \<and> thread (fst s1) = Some (this_thread (snd s1))
      \<and> (\<forall>s'. stop_flag (fst s') \<longrightarrow> stop_flag (fst (post_run h s')))
      \<longrightarrow> snd (call_stop wait_join s1) = None
          \<and> while_loop (Suc n) h s = Some ([PreRun, Run, PostRun], post_run h (run h (pre_run h s))))"
proof -
  have "snd (call_stop wait_join s1) = None
      \<and> while_loop (Suc n) h s = Some ([PreRun, Run, PostRun], post_run h (run h (pre_run h s)))"
    if a: "\<not> stop_flag (fst s)" and b: "run h (pre_run h s) = fst (call_stop wait_join s1)"
      and c: "thread (fst s1) = Some (this_thread (snd s1))"
      and d: "\<forall>s'. stop_flag (fst s') \<longrightarrow> stop_flag (fst (post_run h s'))"
  proof -
    from c have e: "call_stop wait_join s1 = ((fst s1\<lparr>stop_flag := True\<rparr>, snd s1), None)"
      by (cases s1) (simp add: call_stop_def stop_self)
    with b have "stop_flag (fst (run h (pre_run h s)))" by simp
    with d have "stop_flag (fst (post_run h (run h (pre_run h s))))" by blast
    then have "while_loop n h (post_run h (run h (pre_run h s)))
        = Some ([], post_run h (run h (pre_run h s)))"
      by (cases n) simp_all
    with a e show ?thesis by simp
  qed
  then show ?thesis by (simp add: stop_self)
qed

theorem stop_from_own_thread_witness:
  "stop True 2 \<lparr>thread = Some 2, stop_flag = False\<rparr> = (\<lparr>thread = Some 2, stop_flag = True\<rparr>, None)
   \<and> while_loop 1 LifecycleThread_hooks (snd (start (Some 2) (LifecycleThread_new 1)),
        \<lparr>this_thread = 2, clock = (\<lambda>k. 0), reads = 0, sleeps = []\<rparr>)
     = Some ([PreRun, Run, PostRun],
         (\<lparr>thread = Some 2, stop_flag = True, target_iterations = 1, init_calls = 0,
           uninit_calls = 0, pre_calls = 1, post_calls = 1, run_calls = 1\<rparr>,
          \<lparr>this_thread = 2, clock = (\<lambda>k. 0), reads = 0, sleeps = [SleepFor 1000]\<rparr>))"
proof -
  let ?e = "\<lparr>this_thread = 2, clock = (\<lambda>k. 0), reads = 0, sleeps = []\<rparr>"
  let ?s = "(snd (start (Some 2) (LifecycleThread_new 1)), ?e)"
  let ?s1 = "(\<lparr>thread = Some 2, stop_flag = False, target_iterations = 1, init_calls = 0,
           uninit_calls = 0, pre_calls = 1, post_calls = 0, run_calls = 1\<rparr>,
          \<lparr>this_thread = 2, clock = (\<lambda>k. 0), reads = 0, sleeps = [SleepFor 1000]\<rparr>)"
  have a: "\<not> stop_flag (fst ?s)"
    by (simp add: start_def LifecycleThread_new_def joinable_def)
  have b: "run LifecycleThread_hooks (pre_run LifecycleThread_hooks ?s) = fst (call_stop False ?s1)"
    by (simp add: LifecycleThread_hooks_def LifecycleThread_run_def LifecycleThread_new_def
        start_def joinable_def sleep_for_def Let_def)
  have c: "thread (fst ?s1) = Some (this_thread (snd ?s1))" by simp
  have d: "\<forall>s'. stop_flag (fst s') \<longrightarrow> stop_flag (fst (post_run LifecycleThread_hooks s'))"
    by (simp add: LifecycleThread_hooks_def split: prod.splits)
  from stop_from_own_thread [of "\<lparr>thread = Some 2, stop_flag = False\<rparr>" 2 True ?s
      LifecycleThread_hooks ?s1 0] stop_from_own_thread [of "\<lparr>thread = Some 2, stop_flag = False\<rparr>" 2 False ?s
      LifecycleThread_hooks ?s1 0] a b c d
  show ?thesis
    by (simp add: LifecycleThread_hooks_def LifecycleThread_run_def LifecycleThread_new_def
        start_def joinable_def sleep_for_def call_stop_def stop_def Let_def)
qed

section \<open>The loop, step by step\<close>

text \<open>
  A \<open>loop\<close> that returns is a sequence of steps of the thread from \<open>init\<close> to the
  exit, with the same final state.
\<close>

lemma four_steps:
  "\<not> stop_flag (fst s) \<Longrightarrow>
     (thread_step h ^^ 4) (AtCheck, s) = (AtCheck, post_run h (run h (pre_run h s)))"
  by (simp add: eval_nat_numeral)

lemma while_loop_steps:
  "while_loop n h s = Some (tr, s') \<Longrightarrow> \<exists>k. (thread_step h ^^ k) (AtCheck, s) = (AtUninit, s')"
proof (induction n arbitrary: s tr)
  case 0
  then have "(thread_step h ^^ 1) (AtCheck, s) = (AtUninit, s')"
    by (auto split: if_splits)
  then show ?case by blast
next
  case (Suc n)
  show ?case
  proof (cases "stop_flag (fst s)")
    case True
    with Suc.prems have "(thread_step h ^^ 1) (AtCheck, s) = (AtUninit, s')" by auto
    then show ?thesis by blast
  next
    case False
    with Suc.prems obtain tr0 where
      "while_loop n h (post_run h (run h (pre_run h s))) = Some (tr0, s')"
      by (auto split: option.splits)
    from Suc.IH [OF this] obtain k where
      "(thread_step h ^^ k) (AtCheck, post_run h (run h (pre_run h s))) = (AtUninit, s')"
      by blast
    with four_steps [OF False, of h]
    have "(thread_step h ^^ (k + 4)) (AtCheck, s) = (AtUninit, s')"
      by (simp only: funpow_add comp_apply)
    then show ?thesis by blast
  qed
qed

lemma loop_steps:
  assumes "loop n h s = Some (tr, s')"
  shows "\<exists>k. (thread_step h ^^ k) (AtInit, s) = (Exited, s')"
proof -
  obtain ok s1 where i: "init h s = (ok, s1)" by (cases "init h s")
  show ?thesis
  proof (cases ok)
    case False
    with assms i have "(thread_step h ^^ 1) (AtInit, s) = (Exited, s')"
      by (simp add: loop_def)
    then show ?thesis by blast
  next
    case True
    with assms i obtain tr0 s2 where w: "while_loop n h s1 = Some (tr0, s2)"
      and u: "s' = uninit h s2"
      by (auto simp: loop_def split: option.splits)
    from while_loop_steps [OF w] obtain k where
      k: "(thread_step h ^^ k) (AtCheck, s1) = (AtUninit, s2)" by blast
    from True i have a: "thread_step h (AtInit, s) = (AtCheck, s1)" by simp
    have "(thread_step h ^^ (1 + (k + 1))) (AtInit, s) = (Exited, s')"
      unfolding funpow_add comp_apply using a k u by simp
    then show ?thesis by blast
  qed
qed

section \<open>Pacing\<close>

text \<open>
  The sum of a time point and a period is the sum of the two counts as long as that is
  a 64-bit signed number, and wraps around beyond.
\<close>

lemma plus_us_exact:
  assumes "- (2 ^ 63) \<le> sint tp + 1000 * us" and "sint tp + 1000 * us < 2 ^ 63"
  shows "sint (plus_us tp us) = sint tp + 1000 * us"
proof -
  have e: "plus_us tp us = word_of_int (sint tp + 1000 * us)"
    by (simp add: plus_us_def)
  have "sint (word_of_int k :: 64 word) = signed_take_bit 63 k" for k
    by (simp add: sint_sbintrunc')
  from this [of "sint tp + 1000 * us"] e assms show ?thesis
    by (simp add: signed_take_bit_int_eq_self)
qed

lemma plus_us_wraps: "sint (plus_us 9223372036854775000 5000) = - 9223372036849776616"
  by (simp add: plus_us_def)

lemma plus_us_later:
  assumes "0 < us" and "sint tp + 1000 * us < 2 ^ 63"
  shows "sint (plus_us tp us) = sint tp + 1000 * us"
proof -
  have "- (2 ^ 63) \<le> sint tp" using sint_ge [of tp] by simp
  with assms(1) have "- (2 ^ 63) \<le> sint tp + 1000 * us" by simp
  then show ?thesis using assms(2) by (rule plus_us_exact)
qed

text \<open>
  C3: with a positive period, \<open>post_run\<close> reads the clock once. When the reading is
  before the deadline it sleeps until the deadline and moves the deadline on by one
  period; otherwise it does not sleep, and the deadline becomes the reading plus one
  period. The sums are those of the 64-bit counts of nanoseconds, and equal the exact
  sums as long as these are below \<open>2 ^ 63\<close>.
\<close>

theorem post_run_pacing:
  "0 < loop_interval x \<Longrightarrow>
     HiResTimedThread_post_run (x, e) =
       (if sint (clock e (reads e)) < sint (next_deadline x)
        then (x\<lparr>next_deadline := plus_us (next_deadline x) (loop_interval x)\<rparr>,
              e\<lparr>reads := Suc (reads e), sleeps := sleeps e @ [SleepUntil (next_deadline x)]\<rparr>)
        else (x\<lparr>next_deadline := plus_us (clock e (reads e)) (loop_interval x)\<rparr>,
              e\<lparr>reads := Suc (reads e)\<rparr>))
     \<and> (sint (next_deadline x) + 1000 * loop_interval x < 2 ^ 63 \<longrightarrow>
          sint (plus_us (next_deadline x) (loop_interval x))
            = sint (next_deadline x) + 1000 * loop_interval x)
     \<and> (sint (clock e (reads e)) + 1000 * loop_interval x < 2 ^ 63 \<longrightarrow>
          sint (plus_us (clock e (reads e)) (loop_interval x))
            = sint (clock e (reads e)) + 1000 * loop_interval x)"
  by (simp add: HiResTimedThread_post_run_def now_def sleep_until_def plus_us_later)

theorem post_run_pacing_witness:
  "HiResTimedThread_post_run
     (\<lparr>thread = Some 2, stop_flag = False, loop_interval = 5000, next_deadline = 7000000,
       first_iteration = False\<rparr>,
      \<lparr>this_thread = 2, clock = (\<lambda>k. 6000000), reads = 0, sleeps = []\<rparr>)
   = (\<lparr>thread = Some 2, stop_flag = False, loop_interval = 5000, next_deadline = 12000000,
       first_iteration = False\<rparr>,
      \<lparr>this_thread = 2, clock = (\<lambda>k. 6000000), reads = 1, sleeps = [SleepUntil 7000000]\<rparr>)
   \<and> HiResTimedThread_post_run
     (\<lparr>thread = Some 2, stop_flag = False, loop_interval = 5000, next_deadline = 7000000,
       first_iteration = False\<rparr>,
      \<lparr>this_thread = 2, clock = (\<lambda>k. 7000000), reads = 0, sleeps = []\<rparr>)
   = (\<lparr>thread = Some 2, stop_flag = False, loop_interval = 5000, next_deadline = 12000000,
       first_iteration = False\<rparr>,
      \<lparr>this_thread = 2, clock = (\<lambda>k. 7000000), reads = 1, sleeps = []\<rparr>)
   \<and> HiResTimedThread_post_run
     (\<lparr>thread = Some 2, stop_flag = False, loop_interval = 5000, next_deadline = 7000000,
       first_iteration = False\<rparr>,
      \<lparr>this_thread = 2, clock = (\<lambda>k. 9000000), reads = 0, sleeps = []\<rparr>)
   = (\<lparr>thread = Some 2, stop_flag = False, loop_interval = 5000, next_deadline = 14000000,
       first_iteration = False\<rparr>,
      \<lparr>this_thread = 2, clock = (\<lambda>k. 9000000), reads = 1, sleeps = []\<rparr>)
   \<and> sint (plus_us 7000000 5000) = 12000000
   \<and> sint (plus_us 9000000 5000) = 14000000"
proof -
  let ?x = "\<lparr>thread = Some 2, stop_flag = False, loop_interval = 5000,
        next_deadline = 7000000, first_iteration = False\<rparr>"
  let ?e6 = "\<lparr>this_thread = 2, clock = (\<lambda>k. 6000000), reads = 0, sleeps = []\<rparr>"
  let ?e7 = "\<lparr>this_thread = 2, clock = (\<lambda>k. 7000000), reads = 0, sleeps = []\<rparr>"
  let ?e9 = "\<lparr>this_thread = 2, clock = (\<lambda>k. 9000000), reads = 0, sleeps = []\<rparr>"
  have p: "0 < loop_interval ?x" by simp
  have a: "HiResTimedThread_post_run (?x, ?e6)
      = (?x\<lparr>next_deadline := 12000000\<rparr>,
         ?e6\<lparr>reads := 1, sleeps := [SleepUntil 7000000]\<rparr>)"
    using post_run_pacing [OF p, of ?e6, THEN conjunct1] by (simp add: plus_us_def)
  have b: "HiResTimedThread_post_run (?x, ?e7) = (?x\<lparr>next_deadline := 12000000\<rparr>, ?e7\<lparr>reads := 1\<rparr>)"
    using post_run_pacing [OF p, of ?e7, THEN conjunct1] by (simp add: plus_us_def)
  have c: "HiResTimedThread_post_run (?x, ?e9) = (?x\<lparr>next_deadline := 14000000\<rparr>, ?e9\<lparr>reads := 1\<rparr>)"
    using post_run_pacing [OF p, of ?e9, THEN conjunct1] by (simp add: plus_us_def)
  have d: "sint (plus_us 7000000 5000) = 12000000"
    using post_run_pacing [OF p, of ?e9, THEN conjunct2, THEN conjunct1] by simp
  have f: "sint (plus_us 9000000 5000) = 14000000"
    using post_run_pacing [OF p, of ?e9, THEN conjunct2, THEN conjunct2] by simp
  from a b c d f show ?thesis by simp
qed








text \<open>
  C9: for every 32-bit argument, the delay of a \<open>TimedThread\<close> is zero when the
  argument is negative and the argument otherwise; its \<open>pre_run\<close> sleeps for the delay
  exactly when the delay is positive; its other hooks are those of \<open>Thread\<close>. The
  period of a \<open>HiResTimedThread\<close> built from a non-positive argument is zero, and with
  a zero period \<open>pre_run\<close> and \<open>post_run\<close> change nothing.
\<close>

theorem duration_clamping:
  "(sint m < 0 \<longrightarrow> sleep_duration (TimedThread_new m ext) = 0)
   \<and> (0 \<le> sint m \<longrightarrow> sleep_duration (TimedThread_new m ext) = sint m)
   \<and> TimedThread_pre_run (y, e)
       = (if 0 < sleep_duration y
          then (y, e\<lparr>sleeps := sleeps e @ [SleepFor (sleep_duration y)]\<rparr>)
          else (y, e))
   \<and> init (TimedThread_hooks body) = Thread_init
   \<and> uninit (TimedThread_hooks body) = Thread_uninit
   \<and> post_run (TimedThread_hooks body) = Thread_post_run
   \<and> run (TimedThread_hooks body) = body
   \<and> (sint m \<le> 0 \<longrightarrow> loop_interval (HiResTimedThread_new m ext') = 0)
   \<and> (loop_interval z = 0 \<longrightarrow>
        HiResTimedThread_pre_run (z, e) = (z, e) \<and> HiResTimedThread_post_run (z, e) = (z, e))"
  by (simp add: TimedThread_new_def make_non_negative_duration_def TimedThread_pre_run_def
      sleep_for_def TimedThread_hooks_def HiResTimedThread_new_def HiResTimedThread_pre_run_def
      HiResTimedThread_post_run_def)

theorem duration_clamping_witness:
  "sleep_duration (TimedThread_new (- 5) ()) = 0
   \<and> sleep_duration (TimedThread_new 2000 ()) = 2000
   \<and> loop_interval (HiResTimedThread_new (- 5) ()) = 0
   \<and> loop_interval (HiResTimedThread_new 0 ()) = 0
   \<and> HiResTimedThread_pre_run (HiResTimedThread_new (- 5) (),
        \<lparr>this_thread = 2, clock = (\<lambda>k. 9000000), reads = 0, sleeps = []\<rparr>)
      = (HiResTimedThread_new (- 5) (),
        \<lparr>this_thread = 2, clock = (\<lambda>k. 9000000), reads = 0, sleeps = []\<rparr>)
   \<and> HiResTimedThread_post_run (HiResTimedThread_new (- 5) (),
        \<lparr>this_thread = 2, clock = (\<lambda>k. 9000000), reads = 0, sleeps = []\<rparr>)
      = (HiResTimedThread_new (- 5) (),
        \<lparr>this_thread = 2, clock = (\<lambda>k. 9000000), reads = 0, sleeps = []\<rparr>)"
proof -
  let ?e = "\<lparr>this_thread = 2, clock = (\<lambda>k. 9000000), reads = 0, sleeps = []\<rparr>"
  have n: "sint (- 5 :: 32 word) < 0" and n': "sint (- 5 :: 32 word) \<le> 0"
    and z: "sint (0 :: 32 word) \<le> 0" and q: "0 \<le> sint (2000 :: 32 word)"
    by simp_all
  note t1 = duration_clamping [of "- 5" "()" "TimedThread_new (- 5) ()" ?e id "()"
      "HiResTimedThread_new (- 5) ()"]
  note t2 = duration_clamping [of 2000 "()" "TimedThread_new 2000 ()" ?e id "()"
      "HiResTimedThread_new 2000 ()"]
  note t3 = duration_clamping [of 0 "()" "TimedThread_new 0 ()" ?e id "()"
      "HiResTimedThread_new 0 ()"]
  from t1 n have a: "sleep_duration (TimedThread_new (- 5) ()) = 0" by blast
  from t2 q have "sleep_duration (TimedThread_new 2000 ()) = sint (2000 :: 32 word)" by blast
  then have b: "sleep_duration (TimedThread_new 2000 ()) = 2000" by simp
  from t1 n' have c: "loop_interval (HiResTimedThread_new (- 5) ()) = 0" by blast
  from t3 z have d: "loop_interval (HiResTimedThread_new 0 ()) = 0" by blast
  from t1 c have "HiResTimedThread_pre_run (HiResTimedThread_new (- 5) (), ?e)
      = (HiResTimedThread_new (- 5) (), ?e)
    \<and> HiResTimedThread_post_run (HiResTimedThread_new (- 5) (), ?e)
      = (HiResTimedThread_new (- 5) (), ?e)" by blast
  with a b c d show ?thesis by blast
qed

section \<open>The timing state at the entry of the loop\<close>












text \<open>
  The same happens to the \<open>RecordingHiResThread\<close> of the tests when a third thread
  calls \<open>start\<close> while thread 1 is inside the \<open>join\<close> of \<open>stop(true)\<close>: thread 2
  has made its first \<open>pre_run\<close> and has not left \<open>loop\<close>, the handle is empty, and
  thread 4 enters \<open>loop\<close> with the timing state of thread 2.
\<close>

lemma entry_during_join:
  "map_option entries
     (execs RecordingHiResThread_hooks (boot (RecordingHiResThread_new 5000 2) \<lparr>this_thread = 1, clock = ms_clock, reads = 0, sleeps = []\<rparr>)
        [CallStart 1 (Some 2), Step 2, Step 2, Step 2, CallStop 1 True,
         CallStart 3 (Some 4), Step 4])
   = Some
      [\<lparr>thread = Some 2, stop_flag = False, loop_interval = 5000, next_deadline = 0,
        first_iteration = True, target_iterations_hr = 2, timestamps = [],
        done_flag = False\<rparr>,
       \<lparr>thread = Some 4, stop_flag = False, loop_interval = 5000, next_deadline = 5000000,
        first_iteration = False, target_iterations_hr = 2, timestamps = [],
        done_flag = False\<rparr>]"
  by code_simp




end
